theory Spec2Isabelle
  imports Complex_Main "HOL-Library.AList" "HOL-Library.Product_Lexorder"
begin

section \<open>JavaScript numbers\<close>

text \<open>
  A JavaScript Number is an IEEE 754 binary64 value. The model keeps the kinds of value
  the code distinguishes (\<open>Number.isNaN\<close>, \<open>Number.isFinite\<close>, comparisons): NaN, the
  two infinities, and the finite doubles, a finite double being carried as the rational
  number it denotes. Negative zero is identified with zero: the code never divides and
  never inspects the sign of a zero. Every arithmetic result is rounded to the nearest
  double (ties to even) by \<open>to_double\<close>, overflowing to an infinity from
  \<open>2^1024 - 2^970\<close> on.
\<close>

datatype jsnum = NaN | PosInf | NegInf | Fin rat

fun bitlength :: "nat \<Rightarrow> nat" where
  "bitlength n = (if n = 0 then 0 else Suc (bitlength (n div 2)))"

declare bitlength.simps [simp del]

definition pow2 :: "int \<Rightarrow> rat" where
  "pow2 k = (if 0 \<le> k then 2 ^ nat k else 1 / 2 ^ nat (- k))"

definition pow10 :: "int \<Rightarrow> rat" where
  "pow10 k = (if 0 \<le> k then 10 ^ nat k else 1 / 10 ^ nat (- k))"

text \<open>The exponent \<open>e\<close> with \<open>2^e \<le> a < 2^(e+1)\<close>, for a positive rational \<open>a\<close>.\<close>

definition floor_log2 :: "rat \<Rightarrow> int" where
  "floor_log2 a =
     (let (p, q) = quotient_of a;
          k = int (bitlength (nat p)) - int (bitlength (nat q))
      in if pow2 k \<le> a then k else k - 1)"

definition round_half_even :: "rat \<Rightarrow> int" where
  "round_half_even x =
     (let n = \<lfloor>x\<rfloor>; d = x - of_int n
      in if d < 1 / 2 then n
         else if 1 / 2 < d then n + 1
         else if even n then n else n + 1)"

text \<open>
  Rounding of a real value to binary64: 53 significant bits, the least exponent -1022
  (below it the spacing stays \<open>2^-1074\<close>, the subnormal range), round to nearest, ties
  to even.
\<close>

definition to_double :: "rat \<Rightarrow> jsnum" where
  "to_double r =
     (if r = 0 then Fin 0
      else let a = \<bar>r\<bar>;
               e = max (floor_log2 a) (- 1022);
               u = pow2 (e - 52);
               m = of_int (round_half_even (a / u)) * u
           in if pow2 1024 \<le> m then (if r < 0 then NegInf else PosInf)
              else Fin (if r < 0 then - m else m))"

text \<open>\<open>Number.isNaN\<close>, \<open>Number.isFinite\<close> and the operators \<open>+\<close>, \<open>-\<close>, \<open><\<close>, \<open>>\<close> on Numbers.\<close>

definition isNaN :: "jsnum \<Rightarrow> bool" where
  "isNaN x = (x = NaN)"





fun js_lt :: "jsnum \<Rightarrow> jsnum \<Rightarrow> bool" where
  "js_lt NaN _ = False"
| "js_lt _ NaN = False"
| "js_lt (Fin a) (Fin b) = (a < b)"
| "js_lt NegInf NegInf = False"
| "js_lt NegInf _ = True"
| "js_lt PosInf _ = False"
| "js_lt _ PosInf = True"
| "js_lt _ _ = False"

definition js_gt :: "jsnum \<Rightarrow> jsnum \<Rightarrow> bool" where
  "js_gt x y = js_lt y x"

section \<open>Strings to numbers\<close>

text \<open>
  Strings are ASCII: of the white space that \<open>String.prototype.trim\<close>, \<open>Number\<close> and
  \<open>parseInt\<close> strip, the model has TAB, LF, VT, FF, CR and SP.
\<close>

definition isStrWhiteSpaceChar :: "char \<Rightarrow> bool" where
  "isStrWhiteSpaceChar c = (c \<in> set [CHR 0x09, CHR 0x0A, CHR 0x0B, CHR 0x0C, CHR 0x0D, CHR 0x20])"

definition trimStart :: "string \<Rightarrow> string" where
  "trimStart s = dropWhile isStrWhiteSpaceChar s"

definition trim :: "string \<Rightarrow> string" where
  "trim s = rev (trimStart (rev (trimStart s)))"

text \<open>The value of a character as a digit of radix \<open>r\<close> (2 to 36), if it is one.\<close>

definition digitIn :: "nat \<Rightarrow> char \<Rightarrow> nat option" where
  "digitIn r c =
     (let n = (of_char c :: nat);
          d = (if 48 \<le> n \<and> n \<le> 57 then n - 48
               else if 97 \<le> n \<and> n \<le> 122 then n - 87
               else if 65 \<le> n \<and> n \<le> 90 then n - 55
               else 36)
      in if d < r then Some d else None)"

definition isDigitIn :: "nat \<Rightarrow> char \<Rightarrow> bool" where
  "isDigitIn r c = (digitIn r c \<noteq> None)"

definition radixMV :: "nat \<Rightarrow> string \<Rightarrow> nat" where
  "radixMV r ds = foldl (\<lambda>acc c. acc * r + (case digitIn r c of Some d \<Rightarrow> d | None \<Rightarrow> 0)) 0 ds"

text \<open>
  \<open>StringToNumber\<close> of ECMAScript, which \<open>Number(string)\<close> applies: white space is
  stripped, the empty string is 0, and the rest must be, as a whole, a binary, octal or
  hexadecimal integer literal (unsigned), \<open>Infinity\<close> with an optional sign, or a
  decimal literal with an optional sign, fraction and exponent; anything else is NaN.
\<close>

definition nonDecimalIntegerLiteral :: "string \<Rightarrow> nat option" where
  "nonDecimalIntegerLiteral s =
     (case s of
        z # x # ds \<Rightarrow>
          (let r = (if x = CHR ''x'' \<or> x = CHR ''X'' then 16
                    else if x = CHR ''o'' \<or> x = CHR ''O'' then 8
                    else if x = CHR ''b'' \<or> x = CHR ''B'' then 2
                    else (0::nat))
           in if z = CHR ''0'' \<and> r \<noteq> 0 \<and> ds \<noteq> [] \<and> list_all (isDigitIn r) ds
              then Some (radixMV r ds) else None)
      | _ \<Rightarrow> None)"

definition signedDigits :: "string \<Rightarrow> int option" where
  "signedDigits s =
     (let (neg, ds) = (case s of
                         c # t \<Rightarrow> if c = CHR ''-'' then (True, t)
                                  else if c = CHR ''+'' then (False, t) else (False, s)
                       | [] \<Rightarrow> (False, s))
      in if ds \<noteq> [] \<and> list_all (isDigitIn 10) ds
         then Some (if neg then - int (radixMV 10 ds) else int (radixMV 10 ds))
         else None)"

definition exponentPart :: "string \<Rightarrow> int option" where
  "exponentPart s =
     (case s of
        [] \<Rightarrow> Some 0
      | c # t \<Rightarrow> if c = CHR ''e'' \<or> c = CHR ''E'' then signedDigits t else None)"

definition strUnsignedDecimalLiteral :: "string \<Rightarrow> rat option" where
  "strUnsignedDecimalLiteral s =
     (let ip = takeWhile (isDigitIn 10) s;
          r1 = dropWhile (isDigitIn 10) s;
          (fp, r2) = (case r1 of
                        c # t \<Rightarrow> if c = CHR ''.''
                                 then (takeWhile (isDigitIn 10) t, dropWhile (isDigitIn 10) t)
                                 else ([], r1)
                      | [] \<Rightarrow> ([], r1))
      in if ip = [] \<and> fp = [] then None
         else (case exponentPart r2 of
                 None \<Rightarrow> None
               | Some e \<Rightarrow> Some (of_nat (radixMV 10 (ip @ fp)) * pow10 (e - int (length fp)))))"

definition strDecimalLiteral :: "string \<Rightarrow> jsnum" where
  "strDecimalLiteral s =
     (let (neg, u) = (case s of
                        c # t \<Rightarrow> if c = CHR ''-'' then (True, t)
                                 else if c = CHR ''+'' then (False, t) else (False, s)
                      | [] \<Rightarrow> (False, s))
      in if u = ''Infinity'' then (if neg then NegInf else PosInf)
         else (case strUnsignedDecimalLiteral u of
                 None \<Rightarrow> NaN
               | Some r \<Rightarrow> to_double (if neg then - r else r)))"

definition Number :: "string \<Rightarrow> jsnum" where
  "Number s =
     (let t = trim s
      in if t = [] then Fin 0
         else (case nonDecimalIntegerLiteral t of
                 Some n \<Rightarrow> to_double (of_nat n)
               | None \<Rightarrow> strDecimalLiteral t))"

text \<open>
  \<open>Number.parseInt(string, radix)\<close>: leading white space and a sign are skipped, then
  the longest prefix of digits of the radix is read and whatever follows is ignored;
  no digit at all is NaN. A \<open>0x\<close> prefix counts only for radix 0 or 16.
\<close>

definition parseInt :: "string \<Rightarrow> nat \<Rightarrow> jsnum" where
  "parseInt s radix =
     (let s1 = trimStart s;
          (neg, s2) = (case s1 of
                         c # t \<Rightarrow> if c = CHR ''-'' then (True, t)
                                  else if c = CHR ''+'' then (False, t) else (False, s1)
                       | [] \<Rightarrow> (False, s1));
          hex = (case s2 of
                   z # x # t \<Rightarrow> z = CHR ''0'' \<and> (x = CHR ''x'' \<or> x = CHR ''X'')
                 | _ \<Rightarrow> False);
          strip = ((radix = 0 \<or> radix = 16) \<and> hex);
          r = (if strip then 16 else if radix = 0 then 10 else radix);
          s3 = (if strip then drop 2 s2 else s2);
          z = takeWhile (isDigitIn r) s3
      in if radix \<noteq> 0 \<and> (radix < 2 \<or> 36 < radix) then NaN
         else if z = [] then NaN
         else to_double (if neg then - of_nat (radixMV r z) else of_nat (radixMV r z)))"

section \<open>Form fields and parseNumber\<close>

text \<open>
  The keys of \<open>FormState\<close> (\<open>TaskForm\<close> in the edit modal); a form maps each key to the
  text typed into it. Both files declare the same two lists of numeric keys.
\<close>

datatype field =
    sub_division | account_code | number_of_works | estimate_amount | agreement_amount
  | exp_upto_31_03_2025 | exp_upto_last_month | exp_during_this_month | works_completed

type_synonym FormState = "field \<Rightarrow> string"

definition floatFields :: "field list" where
  "floatFields = [estimate_amount, agreement_amount, exp_upto_31_03_2025,
                  exp_upto_last_month, exp_during_this_month]"

definition intFields :: "field list" where
  "intFields = [number_of_works, works_completed]"

datatype numtype = TInt | TFloat

text \<open>The object \<open>{ value, error }\<close> that \<open>parseNumber\<close> returns; \<open>None\<close> is \<open>null\<close>.\<close>

record parsed =
  val :: "jsnum option"
  error :: string

definition parseNumber :: "string \<Rightarrow> numtype \<Rightarrow> parsed" where
  "parseNumber v ty =
     (let trimmed = trim v
      in if trimmed = [] then \<lparr>val = None, error = ''Required.''\<rparr>
         else let p = (if ty = TInt then parseInt trimmed 10 else Number trimmed)
              in if isNaN p
                 then \<lparr>val = None,
                       error = (if ty = TInt then ''Enter a whole number.''
                                else ''Enter a valid number.'')\<rparr>
                 else if js_lt p (Fin 0) then \<lparr>val = None, error = ''Must be non-negative.''\<rparr>
                 else \<lparr>val = Some p, error = []\<rparr>)"

section \<open>Derived fields shown on the form\<close>




section \<open>Validation\<close>

text \<open>
  The error object \<open>nextErrors\<close> is a list of key and message in insertion order; an
  assignment to a key already present replaces its message in place, as a JavaScript
  object does. \<open>Object.keys(validation).length > 0\<close> is then \<open>validation \<noteq> []\<close>.
\<close>

type_synonym errors = "(field \<times> string) list"

definition checkField :: "FormState \<Rightarrow> numtype \<Rightarrow> field \<Rightarrow> errors \<Rightarrow> errors" where
  "checkField form ty fld nextErrors =
     (let result = parseNumber (form fld) ty
      in if error result \<noteq> [] then AList.update fld (error result) nextErrors else nextErrors)"

text \<open>
  The part of \<open>validate\<close> from the two \<open>forEach\<close> loops on, word for word the same in
  both components.
\<close>

definition checkNumbers :: "FormState \<Rightarrow> errors \<Rightarrow> errors" where
  "checkNumbers form e0 =
     (let e1 = fold (checkField form TInt) intFields e0;
          e2 = fold (checkField form TFloat) floatFields e1;
          works = val (parseNumber (form number_of_works) TInt);
          completed = val (parseNumber (form works_completed) TInt);
          e3 = (case (works, completed) of
                  (Some w, Some c) \<Rightarrow>
                    if js_gt c w
                    then AList.update works_completed
                           ''Number of Works Completed cannot exceed Number of Works.'' e2
                    else e2
                | _ \<Rightarrow> e2);
          agreement = val (parseNumber (form agreement_amount) TFloat);
          exp31 = val (parseNumber (form exp_upto_31_03_2025) TFloat)
      in (case (agreement, exp31) of
            (Some a, Some x) \<Rightarrow>
              if js_lt a x
              then AList.update exp_upto_31_03_2025
                     ''Expenditure up to 31-03-2025 must be <= Agreement Amount.'' e3
              else e3
          | _ \<Rightarrow> e3))"

definition checkAccountCode :: "FormState \<Rightarrow> errors \<Rightarrow> errors" where
  "checkAccountCode form e =
     (if form account_code \<notin> set [''Spill'', ''New'']
      then AList.update account_code ''Account Code is required.'' e else e)"

text \<open>\<open>UserTaskClient\<close>: the state is the form and the text of the "Other..." input.\<close>

definition resolvedSubdivision :: "FormState \<Rightarrow> string \<Rightarrow> string" where
  "resolvedSubdivision form otherSubdivision =
     (if form sub_division = ''Other...'' then trim otherSubdivision
      else trim (form sub_division))"

definition validate :: "FormState \<Rightarrow> string \<Rightarrow> errors" where
  "validate form otherSubdivision =
     (let e0 = (if resolvedSubdivision form otherSubdivision = []
                then AList.update sub_division ''Sub-Division is required.'' [] else [])
      in checkNumbers form (checkAccountCode form e0))"

text \<open>\<open>TaskEditModal\<close>.\<close>

definition modal_validate :: "FormState \<Rightarrow> errors" where
  "modal_validate form =
     (let e0 = (if trim (form sub_division) = []
                then AList.update sub_division ''Sub-Division is required.'' [] else [])
      in checkNumbers form (checkAccountCode form e0))"

section \<open>The submitted payload\<close>

datatype jsvalue = JString string | JNumber jsnum

type_synonym payload = "field \<Rightarrow> jsvalue"

text \<open>
  \<open>handleSubmit\<close> posts the payload to \<open>/api/tasks\<close> only when validation found nothing;
  the result is the body it posts, if any. \<open>handleSave\<close> of the modal hands its payload
  to \<open>onSave\<close> under the same condition, when a task is being edited.
\<close>

definition handleSubmit :: "FormState \<Rightarrow> string \<Rightarrow> payload option" where
  "handleSubmit form otherSubdivision =
     (let validation = validate form otherSubdivision
      in if validation \<noteq> [] then None
         else Some (\<lambda>k. if k = sub_division then JString (resolvedSubdivision form otherSubdivision)
                         else if k = account_code then JString (form account_code)
                         else JNumber (Number (form k))))"

definition handleSave :: "bool \<Rightarrow> FormState \<Rightarrow> payload option" where
  "handleSave task_present form =
     (let validation = modal_validate form
      in if validation \<noteq> [] then None
         else if \<not> task_present then None
         else Some (\<lambda>k. if k = sub_division then JString (trim (form sub_division))
                         else if k = account_code then JString (form account_code)
                         else JNumber (Number (form k))))"

text \<open>Concrete forms used below.\<close>

definition scenario_form :: FormState where
  "scenario_form k =
     (if k = sub_division then ''RKV SubDiv-1''
      else if k = account_code then ''New''
      else if k = number_of_works then ''10''
      else if k = estimate_amount then ''1000''
      else if k = agreement_amount then ''900''
      else if k = exp_upto_31_03_2025 then ''400''
      else if k = exp_upto_last_month then ''100''
      else if k = exp_during_this_month then ''50''
      else ''4'')"

definition fractional_form :: FormState where
  "fractional_form = scenario_form (number_of_works := ''5'', works_completed := ''5.9'')"

definition negative_works_form :: FormState where
  "negative_works_form = scenario_form (number_of_works := ''-3'', works_completed := ''5'')"

definition overflow_form :: FormState where
  "overflow_form =
     scenario_form (exp_upto_last_month := ''1e308'', exp_during_this_month := ''1e308'')"

definition all_negative_form :: FormState where
  "all_negative_form k = (if k = sub_division then '' '' else if k = account_code then ''Old'' else ''-1'')"

section \<open>Forwarding a request to the backend\<close>

text \<open>
  \<open>forwardRequest\<close> of \<open>lib/api.ts\<close>. The network is the world outside the function:
  the \<open>i\<close>-th call of \<open>fetch\<close> made in a world either throws or yields a response, as
  \<open>outcome\<close> tells, and every call is logged with its arguments, so that the number of
  attempts a function makes can be read off the log. The result of \<open>forwardRequest\<close> is
  \<open>Inr\<close> the response its promise resolves to, or \<open>Inl\<close> the value it rejects with.

  The constructor \<open>new URL(path, base)\<close> of the platform is a parameter, \<open>new_URL\<close>: it
  yields the resolved address, or \<open>None\<close> where the constructor throws a \<open>TypeError\<close>
  (a base that is not an absolute URL, a path that cannot be resolved). A body is a
  tree of JSON values, which \<open>JSON.stringify\<close> always serialises.
\<close>

datatype json = JsonNull | JsonString string | JsonObject "(string \<times> json) list"

datatype qvalue = QString string | QNumber jsnum | QBool bool | QUndefined | QNull

datatype thrown = ErrorObject string | NotAnError

datatype body_arg = FormData string | StringBody string | OtherBody json

datatype init_body = Raw string | JSON_stringify json

record url =
  href :: string
  searchParams :: "(string \<times> qvalue) list"

record RequestInit =
  init_method :: string
  headers :: "(string \<times> string) list"
  cache :: string
  init_body :: "init_body option"

record Response =
  status :: nat
  response_headers :: "(string \<times> string) list"
  response_body :: init_body

record ForwardOptions =
  path :: string
  opt_method :: "string option"
  token :: "string option"
  query :: "(string \<times> qvalue) list option"
  body :: "body_arg option"
  opt_headers :: "(string \<times> string) list"

record world =
  outcome :: "nat \<Rightarrow> thrown + Response"
  calls :: "(url \<times> RequestInit) list"

definition fetch :: "url \<Rightarrow> RequestInit \<Rightarrow> world \<Rightarrow> (thrown + Response) \<times> world" where
  "fetch u init w = (outcome w (length (calls w)), w\<lparr>calls := calls w @ [(u, init)]\<rparr>)"

text \<open>
  \<open>buildUrl\<close>: the constructor comes first and its \<open>TypeError\<close> is not caught. Then the
  entries whose value is \<open>undefined\<close>, \<open>null\<close> or the empty string are skipped, the
  others set in order (\<open>searchParams.set\<close> replaces a key already there). The text
  \<open>String(value)\<close> of a value is not spelled out: the parameter keeps the value.
\<close>

definition buildUrl ::
    "(string \<Rightarrow> string \<Rightarrow> string option) \<Rightarrow> string \<Rightarrow> string
       \<Rightarrow> (string \<times> qvalue) list option \<Rightarrow> thrown + url" where
  "buildUrl new_URL api_base_url p q =
     (case new_URL p api_base_url of
        None \<Rightarrow> Inl (ErrorObject ''Invalid URL'')
      | Some h \<Rightarrow>
          Inr \<lparr>href = h,
               searchParams =
                 (case q of
                    None \<Rightarrow> []
                  | Some entries \<Rightarrow>
                      fold (\<lambda>(k, v) sp. if v = QUndefined \<or> v = QNull \<or> v = QString [] then sp
                                        else AList.update k v sp) entries [])\<rparr>)"

text \<open>
  \<open>forwardRequest\<close>: \<open>buildUrl\<close> is called before the \<open>try\<close> block, so what it throws
  rejects the promise and \<open>fetch\<close> is never reached; only the call of \<open>fetch\<close> is inside
  the \<open>try\<close>.
\<close>

definition forwardRequest ::
    "(string \<Rightarrow> string \<Rightarrow> string option) \<Rightarrow> string \<Rightarrow> ForwardOptions \<Rightarrow> world
       \<Rightarrow> (thrown + Response) \<times> world" where
  "forwardRequest new_URL api_base_url options w =
     (case buildUrl new_URL api_base_url (path options) (query options) of
        Inl type_error \<Rightarrow> (Inl type_error, w)
      | Inr u \<Rightarrow>
          (let h0 = fold (\<lambda>(k, v). AList.update k v) (opt_headers options)
                      [(''Accept'', ''application/json'')];
               h1 = (case token options of
                       Some t \<Rightarrow> if t \<noteq> [] then AList.update ''Authorization'' (''Bearer '' @ t) h0
                                else h0
                     | None \<Rightarrow> h0);
               init = \<lparr>init_method = (case opt_method options of Some m \<Rightarrow> m | None \<Rightarrow> ''GET''),
                       headers = (case body options of
                                    Some (OtherBody v) \<Rightarrow>
                                      AList.update ''Content-Type'' ''application/json'' h1
                                  | _ \<Rightarrow> h1),
                       cache = ''no-store'',
                       init_body = (case body options of
                                      None \<Rightarrow> None
                                    | Some (FormData d) \<Rightarrow> Some (Raw d)
                                    | Some (StringBody t) \<Rightarrow> Some (Raw t)
                                    | Some (OtherBody v) \<Rightarrow> Some (JSON_stringify v))\<rparr>
           in case fetch u init w of
                (Inr res, w') \<Rightarrow> (Inr res, w')
              | (Inl err, w') \<Rightarrow>
                  (let message = (case err of ErrorObject m \<Rightarrow> m
                                            | NotAnError \<Rightarrow> ''Unable to reach backend.'')
                   in (Inr \<lparr>status = 502,
                            response_headers = [(''Content-Type'', ''application/json'')],
                            response_body =
                              JSON_stringify
                                (JsonObject [(''error'',
                                   JsonObject [(''code'', JsonString ''BACKEND_UNREACHABLE''),
                                               (''message'', JsonString message)])])\<rparr>, w'))))"

section \<open>The query engine of the backend\<close>

text \<open>
  Modelled from the spec: the query engine of the backend (filter, sort, paginate,
  summarize), which is not among the source files; only its README and the front-end
  types that receive its answers (\<open>TaskRecord\<close>, \<open>SummaryResponse\<close>, the list of numeric
  columns) are. Every definition of this section follows the specification's section
  4.2 and the data model of its section 3. Amounts are exact rationals.
\<close>

datatype account = Spill | New

datatype column =
    c_number_of_works | c_estimate_amount | c_agreement_amount | c_exp_upto_31_03_2025
  | c_balance_amount_as_on_01_04_2025 | c_exp_upto_last_month | c_exp_during_this_month
  | c_total_exp_during_year | c_total_value_work_done_from_beginning | c_works_completed
  | c_balance_works

text \<open>
  A calendar date is year, month, day; a time of day is hour, minute, second,
  microsecond; tuples are ordered lexicographically, which is the order of time.
\<close>

type_synonym date = "nat \<times> nat \<times> nat"
type_synonym time_of_day = "nat \<times> nat \<times> nat \<times> nat"
type_synonym timestamp = "date \<times> time_of_day"

definition valid_time :: "time_of_day \<Rightarrow> bool" where
  "valid_time t = (case t of (h, m, s, us) \<Rightarrow> h < 24 \<and> m < 60 \<and> s < 60 \<and> us < 1000000)"

record task =
  sno :: nat
  task_sub_division :: string
  task_account_code :: account
  amount :: "column \<Rightarrow> rat"
  created_by :: string
  created_at :: timestamp

datatype bound = BareDate date | DateTime timestamp

record task_filter =
  by_sub_division_text :: "string option"
  by_account_code :: "account option"
  date_from :: "bound option"
  date_to :: "bound option"

definition lower :: "char \<Rightarrow> char" where
  "lower c =
     (case map_of (zip ''ABCDEFGHIJKLMNOPQRSTUVWXYZ'' ''abcdefghijklmnopqrstuvwxyz'') c of
        Some l \<Rightarrow> l
      | None \<Rightarrow> c)"

fun starts_with :: "string \<Rightarrow> string \<Rightarrow> bool" where
  "starts_with [] h = True"
| "starts_with (a # n) [] = False"
| "starts_with (a # n) (b # h) = (a = b \<and> starts_with n h)"

fun contains :: "string \<Rightarrow> string \<Rightarrow> bool" where
  "contains n [] = (n = [])"
| "contains n (b # h) = (starts_with n (b # h) \<or> contains n h)"

text \<open>
  Modelled from the spec: the date bounds of the backend's filter. "A bare date lower
  bound is interpreted as that date's start-of-day, a bare date upper bound as that
  date's end-of-day."
\<close>

definition start_of_day :: "date \<Rightarrow> timestamp" where
  "start_of_day d = (d, (0, 0, 0, 0))"

definition end_of_day :: "date \<Rightarrow> timestamp" where
  "end_of_day d = (d, (23, 59, 59, 999999))"

fun lower_bound :: "bound \<Rightarrow> timestamp" where
  "lower_bound (BareDate d) = start_of_day d"
| "lower_bound (DateTime t) = t"

fun upper_bound :: "bound \<Rightarrow> timestamp" where
  "upper_bound (BareDate d) = end_of_day d"
| "upper_bound (DateTime t) = t"

text \<open>
  Modelled from the spec: the filter shared by \<open>list\<close> and \<open>summarize\<close> of the backend,
  "all optional and AND-combined": case-insensitive substring match on the
  sub-division, exact match on the account code, inclusive bounds on \<open>created_at\<close>.
\<close>

definition matches :: "task_filter \<Rightarrow> task \<Rightarrow> bool" where
  "matches f t =
     ((case by_sub_division_text f of
         None \<Rightarrow> True
       | Some s \<Rightarrow> contains (map lower s) (map lower (task_sub_division t)))
      \<and> (case by_account_code f of None \<Rightarrow> True | Some a \<Rightarrow> task_account_code t = a)
      \<and> (case date_from f of None \<Rightarrow> True | Some b \<Rightarrow> lower_bound b \<le> created_at t)
      \<and> (case date_to f of None \<Rightarrow> True | Some b \<Rightarrow> created_at t \<le> upper_bound b))"

text \<open>
  Modelled from the spec: \<open>list\<close> of the backend, filter then sort then paginate. The
  sort key is a parameter (any column of the record); the sort is stable in both
  directions. "\<open>page_size\<close> 1..500 (requests above 500 are clamped to 500).
  \<open>total_pages = ceil(total_items / page_size)\<close>, minimum 1 even when
  \<open>total_items = 0\<close>. A page beyond \<open>total_pages\<close> returns an empty \<open>items\<close> array."
\<close>

record page_result =
  items :: "task list"
  page :: nat
  page_size :: nat
  total_items :: nat
  total_pages :: nat

definition clamp_page_size :: "nat \<Rightarrow> nat" where
  "clamp_page_size n = max 1 (min 500 n)"

definition list_tasks ::
    "task list \<Rightarrow> task_filter \<Rightarrow> (task \<Rightarrow> 'k::linorder) \<Rightarrow> bool \<Rightarrow> nat \<Rightarrow> nat \<Rightarrow> page_result" where
  "list_tasks records f sort_key_of descending pg requested_size =
     (let ps = clamp_page_size requested_size;
          filtered = filter (matches f) records;
          sorted_rows = (if descending then rev (sort_key sort_key_of (rev filtered))
                         else sort_key sort_key_of filtered);
          n = length sorted_rows
      in \<lparr>items = take ps (drop ((pg - 1) * ps) sorted_rows),
          page = pg, page_size = ps, total_items = n,
          total_pages = max 1 (nat \<lceil>(of_nat n :: rat) / of_nat ps\<rceil>)\<rparr>)"

text \<open>
  Modelled from the spec: \<open>summarize\<close> of the backend, filter then group then sum.
  "Grand totals across all filtered records, then grouped by \<open>sub_division\<close>, then within
  each sub-division grouped by \<open>account_code\<close>. Grouping key equality is exact-string for
  \<open>sub_division\<close> and exact-enum for \<open>account_code\<close>. Sub-divisions with zero matching
  records after filtering are omitted."
\<close>

type_synonym totals = "column \<Rightarrow> rat"

record account_group =
  account_code_key :: account
  account_totals :: totals

record sub_division_group =
  sub_division_key :: string
  group_totals :: totals
  by_account_code_groups :: "account_group list"

record summary =
  grand_totals :: totals
  by_sub_division :: "sub_division_group list"

definition sum_rows :: "task list \<Rightarrow> totals" where
  "sum_rows rows c = sum_list (map (\<lambda>t. amount t c) rows)"

definition account_groups :: "task list \<Rightarrow> account_group list" where
  "account_groups rows =
     map (\<lambda>a. \<lparr>account_code_key = a,
                account_totals = sum_rows (filter (\<lambda>t. task_account_code t = a) rows)\<rparr>)
         (remdups (map task_account_code rows))"

definition summarize :: "task list \<Rightarrow> task_filter \<Rightarrow> summary" where
  "summarize records f =
     (let filtered = filter (matches f) records
      in \<lparr>grand_totals = sum_rows filtered,
          by_sub_division =
            map (\<lambda>s. let rows = filter (\<lambda>t. task_sub_division t = s) filtered
                      in \<lparr>sub_division_key = s, group_totals = sum_rows rows,
                          by_account_code_groups = account_groups rows\<rparr>)
                (remdups (map task_sub_division filtered))\<rparr>)"

text \<open>Concrete records and filters used below.\<close>

definition north_zone_task :: task where
  "north_zone_task =
     \<lparr>sno = 1, task_sub_division = ''North Zone'', task_account_code = New,
      amount = (\<lambda>c. if c = c_number_of_works then 10 else 0),
      created_by = ''user1'', created_at = ((2025, 6, 30), (23, 59, 59, 999999))\<rparr>"

definition no_filter :: task_filter where
  "no_filter = \<lparr>by_sub_division_text = None, by_account_code = None,
                date_from = None, date_to = None\<rparr>"

definition no_match_filter :: task_filter where
  "no_match_filter = no_filter\<lparr>by_sub_division_text := Some ''south''\<rparr>"

definition north_filter :: task_filter where
  "north_filter = no_filter\<lparr>by_sub_division_text := Some ''north''\<rparr>"

definition end_of_june :: task_filter where
  "end_of_june = no_filter\<lparr>date_to := Some (BareDate (2025, 6, 30))\<rparr>"


text \<open>
  A world in which the backend is down, a request to forward, and a resolver standing
  for \<open>new URL\<close> in the examples: it accepts a base of scheme \<open>http://\<close> and joins base
  and path.
\<close>

definition http_only :: "string \<Rightarrow> string \<Rightarrow> string option" where
  "http_only p b = (if starts_with ''http://'' b then Some (b @ p) else None)"

definition backend_down :: world where
  "backend_down = \<lparr>outcome = (\<lambda>i. Inl (ErrorObject ''fetch failed'')), calls = []\<rparr>"

definition summary_request :: ForwardOptions where
  "summary_request =
     \<lparr>path = ''/admin/summary'', opt_method = Some ''GET'', token = Some ''t0'',
      query = Some [(''sub_division'', QString ''north'')], body = None, opt_headers = []\<rparr>"

section \<open>Rounding to double, proved once\<close>

text \<open>
  \<open>to_double\<close> is characterised by a certificate: an exponent and a mantissa that can
  be checked by comparing numerals. Integers below \<open>2^53\<close> are doubles.
\<close>

lemma pow2_powi: "pow2 k = 2 powi k"
  by (simp add: pow2_def power_int_def power_one_over)

lemma pow2_pos: "0 < pow2 k"
  by (simp add: pow2_powi)

lemma pow2_Suc: "pow2 (k + 1) = 2 * pow2 k"
  by (simp add: pow2_powi power_int_add)

lemma pow2_strict_mono: "i < j \<Longrightarrow> pow2 i < pow2 j"
  by (simp add: pow2_powi power_int_strict_increasing)

lemma pow2_mono: "i \<le> j \<Longrightarrow> pow2 i \<le> pow2 j"
  by (simp add: pow2_powi power_int_increasing)

lemma pow2_diff: "pow2 (i - j) = pow2 i / pow2 j"
  by (simp add: pow2_powi power_int_diff)

lemma pow2_int: "pow2 (int n) = 2 ^ n"
  by (simp add: pow2_def)

lemma bitlength_upper: "n < 2 ^ bitlength n"
proof (induction n rule: bitlength.induct)
  case (1 n)
  show ?case
  proof (cases "n = 0")
    case True
    then show ?thesis by (simp add: bitlength.simps)
  next
    case False
    with 1 have "n div 2 < 2 ^ bitlength (n div 2)" by simp
    then have "n < 2 * 2 ^ bitlength (n div 2)" by linarith
    with False show ?thesis by (simp add: bitlength.simps [of n])
  qed
qed

lemma bitlength_lower: "0 < n \<Longrightarrow> 2 ^ bitlength n \<le> 2 * n"
proof (induction n rule: bitlength.induct)
  case (1 n)
  then have n: "n \<noteq> 0" by simp
  show ?case
  proof (cases "n div 2 = 0")
    case True
    with n have "n = 1" by linarith
    then show ?thesis by (simp add: bitlength.simps)
  next
    case False
    with 1 n have "2 ^ bitlength (n div 2) \<le> 2 * (n div 2)" by simp
    then have "2 ^ bitlength (n div 2) \<le> n" by linarith
    with n show ?thesis by (simp add: bitlength.simps [of n])
  qed
qed


lemma floor_log2_bounds:
  assumes "0 < a"
  shows "pow2 (floor_log2 a) \<le> a \<and> a < pow2 (floor_log2 a + 1)"
proof -
  obtain p q where pq: "quotient_of a = (p, q)" by (cases "quotient_of a")
  then have q: "0 < q" and a: "a = of_int p / of_int q"
    using quotient_of_denom_pos quotient_of_div by blast+
  with assms have p: "0 < p"
    by (simp add: zero_less_divide_iff)
  define bp where "bp = bitlength (nat p)"
  define bq where "bq = bitlength (nat q)"
  define k where "k = int bp - int bq"
  have pu: "of_int p < (2::rat) ^ bp"
  proof -
    have "nat p < 2 ^ bp" unfolding bp_def by (rule bitlength_upper)
    then have "p < 2 ^ bp" using p by (simp add: nat_less_iff)
    then have "(of_int p :: rat) < of_int (2 ^ bp)" by (simp only: of_int_less_iff)
    then show ?thesis by simp
  qed
  have pl: "(2::rat) ^ bp \<le> 2 * of_int p"
  proof -
    have "2 ^ bp \<le> 2 * nat p" unfolding bp_def using p by (intro bitlength_lower) simp
    then have "int (2 ^ bp) \<le> int (2 * nat p)" by (simp only: of_nat_le_iff)
    then have "2 ^ bp \<le> 2 * p" using p by simp
    then have "(of_int (2 ^ bp) :: rat) \<le> of_int (2 * p)" by (simp only: of_int_le_iff)
    then show ?thesis by simp
  qed
  have qu: "of_int q < (2::rat) ^ bq"
  proof -
    have "nat q < 2 ^ bq" unfolding bq_def by (rule bitlength_upper)
    then have "q < 2 ^ bq" using q by (simp add: nat_less_iff)
    then have "(of_int q :: rat) < of_int (2 ^ bq)" by (simp only: of_int_less_iff)
    then show ?thesis by simp
  qed
  have ql: "(2::rat) ^ bq \<le> 2 * of_int q"
  proof -
    have "2 ^ bq \<le> 2 * nat q" unfolding bq_def using q by (intro bitlength_lower) simp
    then have "int (2 ^ bq) \<le> int (2 * nat q)" by (simp only: of_nat_le_iff)
    then have "2 ^ bq \<le> 2 * q" using q by simp
    then have "(of_int (2 ^ bq) :: rat) \<le> of_int (2 * q)" by (simp only: of_int_le_iff)
    then show ?thesis by simp
  qed
  have k: "pow2 k = 2 ^ bp / 2 ^ bq"
    unfolding k_def by (simp add: pow2_diff pow2_int)
  have qpos: "(0::rat) < of_int q" using q by simp
  have upper: "a < pow2 (k + 1)"
  proof -
    have "of_int p * (2::rat) ^ bq < 2 ^ bp * (2 * of_int q)"
      using pu ql qpos p by (intro mult_less_le_imp_less) simp_all
    then have "of_int p / of_int q < 2 * (2 ^ bp / (2::rat) ^ bq)"
      using qpos by (simp add: field_simps)
    then show ?thesis by (simp add: pow2_Suc k a)
  qed
  have lower: "pow2 (k - 1) < a"
  proof -
    have "(2::rat) ^ bp * of_int q < (2 * of_int p) * 2 ^ bq"
      using pl qu qpos p by (intro mult_le_less_imp_less) simp_all
    then have "(2 ^ bp / (2::rat) ^ bq) / 2 < of_int p / of_int q"
      using qpos by (simp add: field_simps)
    moreover have "pow2 (k - 1) = pow2 k / 2"
      using pow2_Suc [of "k - 1"] by simp
    ultimately show ?thesis by (simp add: k a)
  qed
  have fl: "floor_log2 a = (if pow2 k \<le> a then k else k - 1)"
    by (simp add: floor_log2_def pq k_def bp_def bq_def Let_def)
  show ?thesis
  proof (cases "pow2 k \<le> a")
    case True
    with fl upper show ?thesis by simp
  next
    case False
    with fl lower show ?thesis by simp
  qed
qed

lemma floor_log2_eqI:
  assumes "pow2 e \<le> a" "a < pow2 (e + 1)"
  shows "floor_log2 a = e"
proof -
  have "0 < a" using assms(1) pow2_pos [of e] by linarith
  then have b: "pow2 (floor_log2 a) \<le> a" "a < pow2 (floor_log2 a + 1)"
    using floor_log2_bounds by blast+
  have "pow2 e < pow2 (floor_log2 a + 1)" using assms(1) b(2) by linarith
  then have 1: "e < floor_log2 a + 1"
    using pow2_mono [of "floor_log2 a + 1" e] by (cases "e < floor_log2 a + 1") auto
  have "pow2 (floor_log2 a) < pow2 (e + 1)" using assms(2) b(1) by linarith
  then have 2: "floor_log2 a < e + 1"
    using pow2_mono [of "e + 1" "floor_log2 a"] by (cases "floor_log2 a < e + 1") auto
  from 1 2 show ?thesis by simp
qed

lemma round_half_even_exact: "round_half_even (of_int n) = n"
  by (simp add: round_half_even_def)

lemma round_half_even_near:
  assumes "of_int n - 1 / 2 < x" "x < of_int n + 1 / 2"
  shows "round_half_even x = n"
proof (cases "of_int n \<le> x")
  case True
  then have "\<lfloor>x\<rfloor> = n" using assms by (intro floor_unique) auto
  then show ?thesis using assms by (simp add: round_half_even_def)
next
  case False
  then have "\<lfloor>x\<rfloor> = n - 1" using assms by (intro floor_unique) auto
  then show ?thesis using assms False by (simp add: round_half_even_def)
qed


lemma to_double_cert:
  assumes "pow2 e \<le> a" "a < pow2 (e + 1)" "- 1022 \<le> e"
    and "round_half_even (a / pow2 (e - 52)) = n"
  shows "to_double a =
           (if pow2 1024 \<le> of_int n * pow2 (e - 52) then PosInf
            else Fin (of_int n * pow2 (e - 52)))"
    and "to_double (- a) =
           (if pow2 1024 \<le> of_int n * pow2 (e - 52) then NegInf
            else Fin (- (of_int n * pow2 (e - 52))))"
proof -
  have pos: "0 < a" using assms(1) pow2_pos [of e] by linarith
  have fl: "floor_log2 a = e" using assms(1,2) by (rule floor_log2_eqI)
  have mx: "max e (- 1022) = e" using assms(3) by simp
  show "to_double a =
           (if pow2 1024 \<le> of_int n * pow2 (e - 52) then PosInf
            else Fin (of_int n * pow2 (e - 52)))"
    using pos by (simp add: to_double_def Let_def fl mx assms(4))
  show "to_double (- a) =
           (if pow2 1024 \<le> of_int n * pow2 (e - 52) then NegInf
            else Fin (- (of_int n * pow2 (e - 52))))"
    using pos by (simp add: to_double_def Let_def fl mx assms(4))
qed

lemma to_double_of_int:
  assumes "\<bar>n\<bar> < 2 ^ 53"
  shows "to_double (of_int n) = Fin (of_int n)"
proof -
  have main: "to_double (of_int k) = Fin (of_int k) \<and> to_double (- of_int k) = Fin (- of_int k)"
    if k: "0 < k" "k < 2 ^ 53" for k :: int
  proof -
    define a :: rat where "a = of_int k"
    define e where "e = floor_log2 a"
    have apos: "0 < a" using k by (simp add: a_def)
    have b: "pow2 e \<le> a" "a < pow2 (e + 1)"
      unfolding e_def using floor_log2_bounds [OF apos] by blast+
    have a53: "a < pow2 53"
    proof -
      have "(of_int k :: rat) < of_int (2 ^ 53)" using k(2) by (simp only: of_int_less_iff)
      then show ?thesis by (simp add: a_def pow2_def)
    qed
    have a1: "pow2 0 \<le> a" using k(1) by (simp add: a_def pow2_def)
    have "pow2 e < pow2 53" using b(1) a53 by linarith
    then have e52: "e \<le> 52"
      using pow2_mono [of 53 e] by (cases "e \<le> 52") auto
    have "pow2 0 < pow2 (e + 1)" using b(2) a1 by linarith
    then have e0: "0 \<le> e"
      using pow2_mono [of "e + 1" 0] by (cases "0 \<le> e") auto
    have u: "pow2 (e - 52) = 1 / 2 ^ nat (52 - e)"
      using e52 by (cases "e = 52") (simp_all add: pow2_def)
    have q: "a / pow2 (e - 52) = of_int (k * 2 ^ nat (52 - e))"
      by (simp add: u a_def)
    have r: "round_half_even (a / pow2 (e - 52)) = k * 2 ^ nat (52 - e)"
      unfolding q by (rule round_half_even_exact)
    have m: "of_int (k * 2 ^ nat (52 - e)) * pow2 (e - 52) = a"
      by (simp add: u a_def)
    have small: "\<not> pow2 1024 \<le> a"
      using a53 pow2_strict_mono [of 53 1024] by simp
    from e0 have e1022: "- 1022 \<le> e" by simp
    show ?thesis
      using to_double_cert [OF b e1022 r] small unfolding m by (simp add: a_def)
  qed
  consider "n = 0" | "0 < n" | "n < 0" by linarith
  then show ?thesis
  proof cases
    case 1
    then show ?thesis by (simp add: to_double_def)
  next
    case 2
    with assms main [of n] show ?thesis by simp
  next
    case 3
    with assms main [of "- n"] show ?thesis by simp
  qed
qed

lemma to_double_numeral [simp]:
  "(numeral k :: int) < 2 ^ 53 \<Longrightarrow> to_double (numeral k) = Fin (numeral k)"
  "(numeral k :: int) < 2 ^ 53 \<Longrightarrow> to_double (- numeral k) = Fin (- numeral k)"
  "to_double 0 = Fin 0"
  "to_double 1 = Fin 1"
  "to_double (- 1) = Fin (- 1)"
  using to_double_of_int [of "numeral k"] to_double_of_int [of "- numeral k"]
    to_double_of_int [of 0] to_double_of_int [of 1] to_double_of_int [of "- 1"]
  by simp_all

lemma to_double_5_9: "to_double (59 / 10) = Fin (3321404725185741 / 562949953421312)"
proof -
  have r: "round_half_even ((59 / 10) / pow2 (2 - 52)) = 6642809450371482"
    by (rule round_half_even_near) (simp_all add: pow2_def)
  show ?thesis
    using to_double_cert(1) [of 2 "59 / 10", OF _ _ _ r] by (simp add: pow2_def)
qed



section \<open>parseNumber\<close>

lemmas parse_defs = Number_def parseInt_def trim_def trimStart_def isStrWhiteSpaceChar_def
  nonDecimalIntegerLiteral_def strDecimalLiteral_def strUnsignedDecimalLiteral_def
  exponentPart_def signedDigits_def isDigitIn_def digitIn_def radixMV_def

lemma parseInt_empty: "parseInt [] r = NaN"
  by (simp add: parseInt_def trimStart_def)

lemma js_lt_zero_cases: "\<not> js_lt p (Fin 0) \<Longrightarrow> p \<noteq> NaN \<Longrightarrow> p = PosInf \<or> (\<exists>r. p = Fin r \<and> 0 \<le> r)"
  by (cases p) auto

lemma js_lt_irrefl: "\<not> js_lt x x"
  by (cases x) simp_all

lemma js_gt_irrefl: "\<not> js_gt x x"
  by (simp add: js_gt_def js_lt_irrefl)

lemma parseNumber_error_val:
  "(val (parseNumber v ty) = None) = (error (parseNumber v ty) \<noteq> [])"
  by (simp add: parseNumber_def Let_def)

text \<open>
  C10. For every input string and field type, \<open>parseNumber\<close> returns exactly one of two
  shapes: a value that is not null and not negative (a finite double at least 0, or
  \<open>Infinity\<close>) together with the empty error, or null together with a non-empty
  message; it never returns both a value and an error. The checks come in a fixed order:
  presence ("Required."), then the numeric parse, then non-negativity.
\<close>

theorem parseNumber_shape:
  "((\<exists>p. parseNumber v ty = \<lparr>val = Some p, error = []\<rparr>
          \<and> (p = PosInf \<or> (\<exists>r. p = Fin r \<and> 0 \<le> r)))
     \<or> (val (parseNumber v ty) = None \<and> error (parseNumber v ty) \<noteq> []))
   \<and> ((val (parseNumber v ty) = None) = (error (parseNumber v ty) \<noteq> []))
   \<and> (trim v = [] \<longrightarrow> parseNumber v ty = \<lparr>val = None, error = ''Required.''\<rparr>)
   \<and> (trim v \<noteq> [] \<and> isNaN (if ty = TInt then parseInt (trim v) 10 else Number (trim v)) \<longrightarrow>
        parseNumber v ty =
          \<lparr>val = None,
           error = (if ty = TInt then ''Enter a whole number.'' else ''Enter a valid number.'')\<rparr>)
   \<and> (trim v \<noteq> [] \<and> \<not> isNaN (if ty = TInt then parseInt (trim v) 10 else Number (trim v))
        \<and> js_lt (if ty = TInt then parseInt (trim v) 10 else Number (trim v)) (Fin 0) \<longrightarrow>
        parseNumber v ty = \<lparr>val = None, error = ''Must be non-negative.''\<rparr>)
   \<and> (trim v \<noteq> [] \<and> \<not> isNaN (if ty = TInt then parseInt (trim v) 10 else Number (trim v))
        \<and> \<not> js_lt (if ty = TInt then parseInt (trim v) 10 else Number (trim v)) (Fin 0) \<longrightarrow>
        parseNumber v ty =
          \<lparr>val = Some (if ty = TInt then parseInt (trim v) 10 else Number (trim v)), error = []\<rparr>)"
proof -
  define p where "p = (if ty = TInt then parseInt (trim v) 10 else Number (trim v))"
  have shape: "(\<exists>q. parseNumber v ty = \<lparr>val = Some q, error = []\<rparr>
          \<and> (q = PosInf \<or> (\<exists>r. q = Fin r \<and> 0 \<le> r)))
     \<or> (val (parseNumber v ty) = None \<and> error (parseNumber v ty) \<noteq> [])"
  proof (cases "trim v \<noteq> [] \<and> \<not> isNaN p \<and> \<not> js_lt p (Fin 0)")
    case True
    then have "p = PosInf \<or> (\<exists>r. p = Fin r \<and> 0 \<le> r)"
      using js_lt_zero_cases [of p] by (simp add: isNaN_def)
    moreover have "parseNumber v ty = \<lparr>val = Some p, error = []\<rparr>"
      using True by (simp add: parseNumber_def Let_def p_def)
    ultimately show ?thesis by blast
  next
    case False
    then have "val (parseNumber v ty) = None \<and> error (parseNumber v ty) \<noteq> []"
      by (auto simp add: parseNumber_def Let_def p_def)
    then show ?thesis by blast
  qed
  show ?thesis
    using shape by (simp add: parseNumber_error_val) (simp add: parseNumber_def Let_def)
qed

theorem parseNumber_shape_witness:
  "trim '' '' = [] \<and> parseNumber '' '' TInt = \<lparr>val = None, error = ''Required.''\<rparr>
   \<and> trim ''x'' \<noteq> [] \<and> isNaN (Number (trim ''x''))
   \<and> parseNumber ''x'' TFloat = \<lparr>val = None, error = ''Enter a valid number.''\<rparr>
   \<and> isNaN (parseInt (trim ''x'') 10)
   \<and> parseNumber ''x'' TInt = \<lparr>val = None, error = ''Enter a whole number.''\<rparr>
   \<and> js_lt (parseInt (trim ''-3'') 10) (Fin 0)
   \<and> parseNumber ''-3'' TInt = \<lparr>val = None, error = ''Must be non-negative.''\<rparr>
   \<and> \<not> js_lt (parseInt (trim ''5.9'') 10) (Fin 0)
   \<and> parseNumber ''5.9'' TInt = \<lparr>val = Some (Fin 5), error = []\<rparr>"
proof -
  have e: "trim '' '' = []" "trim ''x'' = ''x''" "trim ''-3'' = ''-3''" "trim ''5.9'' = ''5.9''"
    "Number ''x'' = NaN" "parseInt ''x'' 10 = NaN" "parseInt ''-3'' 10 = Fin (- 3)"
    "parseInt ''5.9'' 10 = Fin 5"
    by (simp_all add: parse_defs)
  show ?thesis
    using parseNumber_shape [of "'' ''" TInt] parseNumber_shape [of "''x''" TFloat]
      parseNumber_shape [of "''x''" TInt] parseNumber_shape [of "''-3''" TInt]
      parseNumber_shape [of "''5.9''" TInt]
    by (simp add: e isNaN_def)
qed

section \<open>Validation collects every field error\<close>

lemma map_of_checkField:
  "map_of (checkField form ty f e) k =
     (if k = f \<and> error (parseNumber (form f) ty) \<noteq> []
      then Some (error (parseNumber (form f) ty)) else map_of e k)"
  by (simp add: checkField_def Let_def update_conv')

lemma map_of_fold_checkField:
  "map_of (fold (checkField form ty) fs e) k =
     (if k \<in> set fs \<and> error (parseNumber (form k) ty) \<noteq> []
      then Some (error (parseNumber (form k) ty)) else map_of e k)"
proof (induction fs arbitrary: e)
  case Nil
  then show ?case by simp
next
  case (Cons f fs)
  show ?case by (auto simp add: Cons.IH map_of_checkField)
qed

lemma map_of_checkNumbers:
  "map_of (checkNumbers form e0) k =
     (if k = exp_upto_31_03_2025
         \<and> (case (val (parseNumber (form agreement_amount) TFloat),
                   val (parseNumber (form exp_upto_31_03_2025) TFloat)) of
               (Some a, Some x) \<Rightarrow> js_lt a x | _ \<Rightarrow> False)
      then Some ''Expenditure up to 31-03-2025 must be <= Agreement Amount.''
      else if k = works_completed
         \<and> (case (val (parseNumber (form number_of_works) TInt),
                   val (parseNumber (form works_completed) TInt)) of
               (Some w, Some c) \<Rightarrow> js_gt c w | _ \<Rightarrow> False)
      then Some ''Number of Works Completed cannot exceed Number of Works.''
      else if k \<in> set floatFields \<and> error (parseNumber (form k) TFloat) \<noteq> []
      then Some (error (parseNumber (form k) TFloat))
      else if k \<in> set intFields \<and> error (parseNumber (form k) TInt) \<noteq> []
      then Some (error (parseNumber (form k) TInt))
      else map_of e0 k)"
proof -
  define e2 where
    "e2 = fold (checkField form TFloat) floatFields (fold (checkField form TInt) intFields e0)"
  define e3 where
    "e3 = (case (val (parseNumber (form number_of_works) TInt),
                 val (parseNumber (form works_completed) TInt)) of
             (Some w, Some c) \<Rightarrow>
               if js_gt c w
               then AList.update works_completed
                      ''Number of Works Completed cannot exceed Number of Works.'' e2
               else e2
           | _ \<Rightarrow> e2)"
  have 2: "map_of e2 k =
     (if k \<in> set floatFields \<and> error (parseNumber (form k) TFloat) \<noteq> []
      then Some (error (parseNumber (form k) TFloat))
      else if k \<in> set intFields \<and> error (parseNumber (form k) TInt) \<noteq> []
      then Some (error (parseNumber (form k) TInt))
      else map_of e0 k)"
    unfolding e2_def by (simp only: map_of_fold_checkField)
  have 3: "map_of e3 k =
     (if k = works_completed
         \<and> (case (val (parseNumber (form number_of_works) TInt),
                   val (parseNumber (form works_completed) TInt)) of
               (Some w, Some c) \<Rightarrow> js_gt c w | _ \<Rightarrow> False)
      then Some ''Number of Works Completed cannot exceed Number of Works.''
      else map_of e2 k)"
    unfolding e3_def
    by (cases "val (parseNumber (form number_of_works) TInt)";
        cases "val (parseNumber (form works_completed) TInt)")
       (simp_all add: update_conv')
  have c: "checkNumbers form e0 =
     (case (val (parseNumber (form agreement_amount) TFloat),
            val (parseNumber (form exp_upto_31_03_2025) TFloat)) of
        (Some a, Some x) \<Rightarrow>
          if js_lt a x
          then AList.update exp_upto_31_03_2025
                 ''Expenditure up to 31-03-2025 must be <= Agreement Amount.'' e3
          else e3
      | _ \<Rightarrow> e3)"
    unfolding checkNumbers_def Let_def e3_def e2_def ..
  have 4: "map_of (checkNumbers form e0) k =
     (if k = exp_upto_31_03_2025
         \<and> (case (val (parseNumber (form agreement_amount) TFloat),
                   val (parseNumber (form exp_upto_31_03_2025) TFloat)) of
               (Some a, Some x) \<Rightarrow> js_lt a x | _ \<Rightarrow> False)
      then Some ''Expenditure up to 31-03-2025 must be <= Agreement Amount.''
      else map_of e3 k)"
    unfolding c
    by (cases "val (parseNumber (form agreement_amount) TFloat)";
        cases "val (parseNumber (form exp_upto_31_03_2025) TFloat)")
       (simp_all add: update_conv')
  show ?thesis unfolding 4 3 2 ..
qed

lemma map_of_checkAccountCode:
  "map_of (checkAccountCode form e) k =
     (if k = account_code \<and> form account_code \<noteq> ''Spill'' \<and> form account_code \<noteq> ''New''
      then Some ''Account Code is required.'' else map_of e k)"
  by (simp add: checkAccountCode_def update_conv')

lemma map_of_validate:
  "map_of (validate form other) k =
     map_of (checkNumbers form (checkAccountCode form
       (if resolvedSubdivision form other = []
        then [(sub_division, ''Sub-Division is required.'')] else []))) k"
  by (simp add: validate_def Let_def)

lemma map_of_modal_validate:
  "map_of (modal_validate form) k =
     map_of (checkNumbers form (checkAccountCode form
       (if trim (form sub_division) = []
        then [(sub_division, ''Sub-Division is required.'')] else []))) k"
  by (simp add: modal_validate_def Let_def)

lemmas validate_lookup = map_of_validate map_of_modal_validate map_of_checkNumbers
  map_of_checkAccountCode

lemma lookup_nonempty: "map_of e k = Some m \<Longrightarrow> e \<noteq> []"
  by auto




lemma pow10_0: "pow10 0 = 1"
  by (simp add: pow10_def)



lemmas form_defs = scenario_form_def fractional_form_def negative_works_form_def
  overflow_form_def all_negative_form_def

lemmas validate_defs = validate_def modal_validate_def checkNumbers_def checkField_def
  checkAccountCode_def resolvedSubdivision_def intFields_def floatFields_def Let_def

lemmas eval_defs = parseNumber_def parse_defs pow10_def isNaN_def js_gt_def

lemma js_gt_nonneg:
  "js_gt c w \<Longrightarrow> \<not> js_lt w (Fin 0) \<Longrightarrow> \<not> js_lt c (Fin 0) \<and> c \<noteq> NaN \<and> w \<noteq> NaN"
  by (cases c; cases w) (auto simp add: js_gt_def)

lemma parseNumber_accepts:
  assumes "trim v \<noteq> []"
    and "p = (if ty = TInt then parseInt (trim v) 10 else Number (trim v))"
    and "\<not> isNaN p" and "\<not> js_lt p (Fin 0)"
  shows "parseNumber v ty = \<lparr>val = Some p, error = []\<rparr>"
  using assms by (simp add: parseNumber_def Let_def)

lemma cross_check_works:
  assumes "val (parseNumber (form number_of_works) TInt) = Some w"
    and "val (parseNumber (form works_completed) TInt) = Some c"
    and "js_gt c w"
  shows "map_of (validate form other) works_completed =
           Some ''Number of Works Completed cannot exceed Number of Works.''"
    and "map_of (modal_validate form) works_completed =
           Some ''Number of Works Completed cannot exceed Number of Works.''"
  using assms by (simp_all add: validate_lookup)

lemma cross_check_agreement:
  assumes "val (parseNumber (form agreement_amount) TFloat) = Some a"
    and "val (parseNumber (form exp_upto_31_03_2025) TFloat) = Some x"
    and "js_lt a x"
  shows "map_of (validate form other) exp_upto_31_03_2025 =
           Some ''Expenditure up to 31-03-2025 must be <= Agreement Amount.''"
    and "map_of (modal_validate form) exp_upto_31_03_2025 =
           Some ''Expenditure up to 31-03-2025 must be <= Agreement Amount.''"
  using assms by (simp_all add: validate_lookup)

section \<open>Cross-field checks\<close>

text \<open>
  C3 (amended). For every raw input in which \<open>number_of_works\<close> and \<open>works_completed\<close>
  both parse as integers (\<open>parseInt\<close> of the trimmed text is not NaN),
  \<open>number_of_works\<close> is not negative and \<open>works_completed > number_of_works\<close>, validation
  fails and the error object has the message "Number of Works Completed cannot exceed
  Number of Works." attached to \<open>works_completed\<close>, whatever the other fields hold, in
  both components.
\<close>

theorem works_completed_exceeds:
  assumes "w = parseInt (trim (form number_of_works)) 10"
    and "c = parseInt (trim (form works_completed)) 10"
    and "\<not> isNaN w" and "\<not> isNaN c"
    and "\<not> js_lt w (Fin 0)"
    and "js_gt c w"
  shows "validate form other \<noteq> []
     \<and> map_of (validate form other) works_completed =
         Some ''Number of Works Completed cannot exceed Number of Works.''
     \<and> modal_validate form \<noteq> []
     \<and> map_of (modal_validate form) works_completed =
         Some ''Number of Works Completed cannot exceed Number of Works.''"
proof -
  have tw: "trim (form number_of_works) \<noteq> []"
    using assms(1,3) parseInt_empty [of 10] by (auto simp add: isNaN_def)
  have tc: "trim (form works_completed) \<noteq> []"
    using assms(2,4) parseInt_empty [of 10] by (auto simp add: isNaN_def)
  have cpos: "\<not> js_lt c (Fin 0)"
    using js_gt_nonneg [OF assms(6) assms(5)] by simp
  have pw: "val (parseNumber (form number_of_works) TInt) = Some w"
    using parseNumber_accepts [OF tw, of w TInt] assms(1,3,5) by simp
  have pc: "val (parseNumber (form works_completed) TInt) = Some c"
    using parseNumber_accepts [OF tc, of c TInt] assms(2,4) cpos by simp
  have r1: "map_of (validate form other) works_completed =
      Some ''Number of Works Completed cannot exceed Number of Works.''"
    using pw pc assms(6) by (rule cross_check_works(1))
  have r2: "map_of (modal_validate form) works_completed =
      Some ''Number of Works Completed cannot exceed Number of Works.''"
    using pw pc assms(6) by (rule cross_check_works(2))
  show ?thesis
    using r1 r2 lookup_nonempty [OF r1] lookup_nonempty [OF r2] by simp
qed

theorem works_completed_exceeds_witness:
  "\<not> isNaN (parseInt (trim ''10'') 10) \<and> \<not> isNaN (parseInt (trim ''11'') 10)
   \<and> \<not> js_lt (parseInt (trim ''10'') 10) (Fin 0)
   \<and> js_gt (parseInt (trim ''11'') 10) (parseInt (trim ''10'') 10)
   \<and> validate (scenario_form (works_completed := ''11'')) [] \<noteq> []
   \<and> map_of (validate (scenario_form (works_completed := ''11'')) []) works_completed =
       Some ''Number of Works Completed cannot exceed Number of Works.''
   \<and> modal_validate (scenario_form (works_completed := ''11'')) \<noteq> []
   \<and> map_of (modal_validate (scenario_form (works_completed := ''11''))) works_completed =
       Some ''Number of Works Completed cannot exceed Number of Works.''"
proof -
  have e: "parseInt (trim ''10'') 10 = Fin 10" "parseInt (trim ''11'') 10 = Fin 11"
    by (simp_all add: parse_defs)
  show ?thesis
    using works_completed_exceeds [of "Fin 10" "scenario_form (works_completed := ''11'')"
        "Fin 11" "[]"]
    by (simp add: e scenario_form_def isNaN_def js_gt_def)
qed

text \<open>
  Without the condition on the sign the statement fails: the cross-field check runs only
  when \<open>parseNumber\<close> accepted both fields, and it rejects a negative
  \<open>number_of_works\<close>. With "-3" works and "5" completed, both are integers and 5 > -3,
  yet the only error is the one on \<open>number_of_works\<close>.
\<close>

theorem works_completed_exceeds_counterexample:
  "\<not> isNaN (parseInt (trim (negative_works_form number_of_works)) 10)
   \<and> \<not> isNaN (parseInt (trim (negative_works_form works_completed)) 10)
   \<and> js_gt (parseInt (trim (negative_works_form works_completed)) 10)
            (parseInt (trim (negative_works_form number_of_works)) 10)
   \<and> validate negative_works_form [] = [(number_of_works, ''Must be non-negative.'')]
   \<and> map_of (validate negative_works_form []) works_completed = None
   \<and> modal_validate negative_works_form = [(number_of_works, ''Must be non-negative.'')]
   \<and> map_of (modal_validate negative_works_form) works_completed = None"
proof -
  have v: "validate negative_works_form [] = [(number_of_works, ''Must be non-negative.'')]"
    "modal_validate negative_works_form = [(number_of_works, ''Must be non-negative.'')]"
    by (simp_all add: validate_defs form_defs eval_defs)
  show ?thesis
    unfolding v by (simp add: form_defs eval_defs)
qed

text \<open>
  C4. For every raw input in which \<open>exp_upto_31_03_2025\<close> and \<open>agreement_amount\<close> both
  parse as non-negative decimals (not blank, \<open>Number\<close> of the trimmed text is not NaN
  and not below 0) and \<open>exp_upto_31_03_2025 > agreement_amount\<close>, validation fails and
  the error object has an error attached to \<open>exp_upto_31_03_2025\<close>, in both components.
\<close>

theorem exp_exceeds_agreement:
  assumes "trim (form agreement_amount) \<noteq> []" and "trim (form exp_upto_31_03_2025) \<noteq> []"
    and "a = Number (trim (form agreement_amount))"
    and "x = Number (trim (form exp_upto_31_03_2025))"
    and "\<not> isNaN a" and "\<not> isNaN x"
    and "\<not> js_lt a (Fin 0)" and "\<not> js_lt x (Fin 0)"
    and "js_gt x a"
  shows "validate form other \<noteq> []
     \<and> map_of (validate form other) exp_upto_31_03_2025 =
         Some ''Expenditure up to 31-03-2025 must be <= Agreement Amount.''
     \<and> modal_validate form \<noteq> []
     \<and> map_of (modal_validate form) exp_upto_31_03_2025 =
         Some ''Expenditure up to 31-03-2025 must be <= Agreement Amount.''"
proof -
  have pa: "val (parseNumber (form agreement_amount) TFloat) = Some a"
    using parseNumber_accepts [OF assms(1), of a TFloat] assms(3,5,7) by simp
  have px: "val (parseNumber (form exp_upto_31_03_2025) TFloat) = Some x"
    using parseNumber_accepts [OF assms(2), of x TFloat] assms(4,6,8) by simp
  have lt: "js_lt a x" using assms(9) by (simp add: js_gt_def)
  have r1: "map_of (validate form other) exp_upto_31_03_2025 =
      Some ''Expenditure up to 31-03-2025 must be <= Agreement Amount.''"
    using pa px lt by (rule cross_check_agreement(1))
  have r2: "map_of (modal_validate form) exp_upto_31_03_2025 =
      Some ''Expenditure up to 31-03-2025 must be <= Agreement Amount.''"
    using pa px lt by (rule cross_check_agreement(2))
  show ?thesis
    using r1 r2 lookup_nonempty [OF r1] lookup_nonempty [OF r2] by simp
qed

theorem exp_exceeds_agreement_witness:
  "trim ''900'' \<noteq> [] \<and> trim ''901'' \<noteq> []
   \<and> \<not> isNaN (Number (trim ''900'')) \<and> \<not> isNaN (Number (trim ''901''))
   \<and> \<not> js_lt (Number (trim ''900'')) (Fin 0) \<and> \<not> js_lt (Number (trim ''901'')) (Fin 0)
   \<and> js_gt (Number (trim ''901'')) (Number (trim ''900''))
   \<and> validate (scenario_form (exp_upto_31_03_2025 := ''901'')) [] \<noteq> []
   \<and> map_of (validate (scenario_form (exp_upto_31_03_2025 := ''901'')) []) exp_upto_31_03_2025 =
       Some ''Expenditure up to 31-03-2025 must be <= Agreement Amount.''
   \<and> modal_validate (scenario_form (exp_upto_31_03_2025 := ''901'')) \<noteq> []
   \<and> map_of (modal_validate (scenario_form (exp_upto_31_03_2025 := ''901''))) exp_upto_31_03_2025 =
       Some ''Expenditure up to 31-03-2025 must be <= Agreement Amount.''"
proof -
  have e: "trim ''900'' = ''900''" "trim ''901'' = ''901''"
    "Number ''900'' = Fin 900" "Number ''901'' = Fin 901"
    by (simp_all add: parse_defs pow10_0)
  show ?thesis
    using exp_exceeds_agreement [of "scenario_form (exp_upto_31_03_2025 := ''901'')"
        "Fin 900" "Fin 901" "[]"]
    by (simp add: e scenario_form_def isNaN_def js_gt_def)
qed

text \<open>
  The comparisons are strict, as in the code: two equal values, \<open>Infinity\<close> included,
  raise no cross-field error.
\<close>

lemma equal_infinities_pass:
  "validate (scenario_form (agreement_amount := ''Infinity'',
                            exp_upto_31_03_2025 := ''Infinity'')) [] = []"
  "modal_validate (scenario_form (agreement_amount := ''Infinity'',
                                  exp_upto_31_03_2025 := ''Infinity'')) = []"
  by (simp_all add: validate_defs form_defs eval_defs)

section \<open>The payload is not what was validated\<close>

text \<open>
  C9. There is a form input that passes \<open>validate\<close> with no error and whose submitted
  payload violates \<open>works_completed \<le> number_of_works\<close>: with "5" works and "5.9"
  completed, \<open>parseInt\<close> reads 5 for both, so validation finds nothing, while the
  payload is built with \<open>Number\<close> and carries 5.9 completed against 5 works. The same
  holds for \<open>handleSave\<close> of the edit modal.
\<close>

theorem fractional_works_completed_accepted:
  "validate fractional_form [] = [] \<and> modal_validate fractional_form = []
   \<and> parseInt (trim (fractional_form number_of_works)) 10 = Fin 5
   \<and> parseInt (trim (fractional_form works_completed)) 10 = Fin 5
   \<and> map_option (\<lambda>p. (p number_of_works, p works_completed)) (handleSubmit fractional_form [])
       = Some (JNumber (Fin 5), JNumber (Fin (3321404725185741 / 562949953421312)))
   \<and> map_option (\<lambda>p. (p number_of_works, p works_completed)) (handleSave True fractional_form)
       = Some (JNumber (Fin 5), JNumber (Fin (3321404725185741 / 562949953421312)))
   \<and> js_gt (Fin (3321404725185741 / 562949953421312)) (Fin 5)"
proof -
  have v: "validate fractional_form [] = []" "modal_validate fractional_form = []"
    by (simp_all add: validate_defs form_defs eval_defs)
  have n: "Number (fractional_form number_of_works) = Fin 5"
    "Number (fractional_form works_completed) = Fin (3321404725185741 / 562949953421312)"
    by (simp_all add: form_defs parse_defs pow10_def to_double_5_9)
  have p: "parseInt (trim (fractional_form number_of_works)) 10 = Fin 5"
    "parseInt (trim (fractional_form works_completed)) 10 = Fin 5"
    by (simp_all add: form_defs parse_defs)
  show ?thesis
    by (simp add: v n p handleSubmit_def handleSave_def js_gt_def)
qed

section \<open>Derived fields\<close>







section \<open>An unreachable backend\<close>

text \<open>
  C8. For every forwarded request, if the fetch to the backend throws (the address was
  built, \<open>fetch\<close> was called with it and threw), \<open>forwardRequest\<close> resolves to a
  response with status 502 whose body carries the error code "BACKEND_UNREACHABLE" (and
  the message of the error, or "Unable to reach backend."), and it has called \<open>fetch\<close>
  exactly once, with the URL built from the options: the failure is not retried.
\<close>

theorem forwardRequest_backend_unreachable:
  assumes "new_URL (path options) api = Some h"
    and "outcome w (length (calls w)) = Inl err"
  shows "fst (forwardRequest new_URL api options w) =
           Inr \<lparr>status = 502,
                response_headers = [(''Content-Type'', ''application/json'')],
                response_body =
                  JSON_stringify
                    (JsonObject [(''error'',
                       JsonObject [(''code'', JsonString ''BACKEND_UNREACHABLE''),
                                   (''message'',
                                    JsonString (case err of ErrorObject m \<Rightarrow> m
                                                | NotAnError \<Rightarrow> ''Unable to reach backend.''))])])\<rparr>
     \<and> length (calls (snd (forwardRequest new_URL api options w))) = length (calls w) + 1
     \<and> butlast (calls (snd (forwardRequest new_URL api options w))) = calls w
     \<and> buildUrl new_URL api (path options) (query options) =
         Inr (fst (last (calls (snd (forwardRequest new_URL api options w)))))
     \<and> href (fst (last (calls (snd (forwardRequest new_URL api options w))))) = h"
  using assms by (simp add: forwardRequest_def buildUrl_def fetch_def Let_def)

theorem forwardRequest_backend_unreachable_witness:
  "http_only (path summary_request) ''http://localhost:8000'' =
     Some ''http://localhost:8000/admin/summary''
   \<and> outcome backend_down (length (calls backend_down)) = Inl (ErrorObject ''fetch failed'')
   \<and> fst (forwardRequest http_only ''http://localhost:8000'' summary_request backend_down) =
       Inr \<lparr>status = 502,
            response_headers = [(''Content-Type'', ''application/json'')],
            response_body =
              JSON_stringify
                (JsonObject [(''error'',
                   JsonObject [(''code'', JsonString ''BACKEND_UNREACHABLE''),
                               (''message'', JsonString ''fetch failed'')])])\<rparr>
   \<and> length (calls (snd (forwardRequest http_only ''http://localhost:8000'' summary_request
                            backend_down))) = 1"
  using forwardRequest_backend_unreachable [of http_only summary_request
      "''http://localhost:8000''" "''http://localhost:8000/admin/summary''" backend_down
      "ErrorObject ''fetch failed''"]
  by (simp add: backend_down_def http_only_def summary_request_def)

text \<open>
  Where the constructor throws (a base without a scheme, say), the promise is rejected
  with its \<open>TypeError\<close> and no call of \<open>fetch\<close> is made: the 502 above answers a
  failing \<open>fetch\<close>, not a malformed address.
\<close>

lemma forwardRequest_invalid_url:
  "new_URL (path options) api = None \<Longrightarrow>
     forwardRequest new_URL api options w = (Inl (ErrorObject ''Invalid URL''), w)"
  by (simp add: forwardRequest_def buildUrl_def)

lemma forwardRequest_invalid_url_example:
  "forwardRequest http_only ''localhost:8000'' summary_request backend_down =
     (Inl (ErrorObject ''Invalid URL''), backend_down)"
  by (rule forwardRequest_invalid_url) (simp add: http_only_def)

section \<open>Summary totals\<close>

lemma starts_with_iff: "starts_with n h \<longleftrightarrow> (\<exists>suf. h = n @ suf)"
  by (induction n h rule: starts_with.induct) auto

lemma contains_iff: "contains n h \<longleftrightarrow> (\<exists>pre suf. h = pre @ n @ suf)"
proof (induction h)
  case Nil
  then show ?case by simp
next
  case (Cons b h)
  show ?case
  proof
    assume "contains n (b # h)"
    then consider "starts_with n (b # h)" | "contains n h" by auto
    then show "\<exists>pre suf. b # h = pre @ n @ suf"
    proof cases
      case 1
      then obtain suf where "b # h = n @ suf" using starts_with_iff by blast
      then have "b # h = [] @ n @ suf" by simp
      then show ?thesis by blast
    next
      case 2
      then obtain pre suf where "h = pre @ n @ suf" using Cons.IH by blast
      then have "b # h = (b # pre) @ n @ suf" by simp
      then show ?thesis by blast
    qed
  next
    assume "\<exists>pre suf. b # h = pre @ n @ suf"
    then obtain pre suf where ps: "b # h = pre @ n @ suf" by blast
    show "contains n (b # h)"
    proof (cases pre)
      case Nil
      with ps have "starts_with n (b # h)" using starts_with_iff by auto
      then show ?thesis by simp
    next
      case (Cons a pre')
      with ps have "h = pre' @ n @ suf" by simp
      then have "contains n h" using Cons.IH by blast
      then show ?thesis by simp
    qed
  qed
qed

lemma matches_north: "matches north_filter north_zone_task"
  by (simp add: matches_def north_filter_def no_filter_def north_zone_task_def lower_def)

lemma summarize_north:
  "map sub_division_key (by_sub_division (summarize [north_zone_task] north_filter)) =
     [''North Zone'']"
  by (simp add: summarize_def Let_def matches_north) (simp add: north_zone_task_def)

text \<open>
  C5. For every record collection and filter, each grand total returned by \<open>summarize\<close>
  is the sum of that numeric column over exactly the records passing the filter. The
  sub-division filter matches by case-insensitive substring, so a record of sub-division
  "North Zone" passes the filter "north"; the groups of \<open>by_sub_division\<close> are keyed by
  the exact sub-division strings of the passing records, one group per string, each
  summing the passing records with exactly that string, so that record appears under
  "North Zone" only.
\<close>

theorem summarize_totals:
  "grand_totals (summarize records f) c =
     sum_list (map (\<lambda>t. amount t c) (filter (matches f) records))
   \<and> sub_division_key ` set (by_sub_division (summarize records f)) =
       task_sub_division ` {t \<in> set records. matches f t}
   \<and> distinct (map sub_division_key (by_sub_division (summarize records f)))
   \<and> (\<forall>g \<in> set (by_sub_division (summarize records f)).
        group_totals g c =
          sum_list (map (\<lambda>t. amount t c)
            (filter (\<lambda>t. matches f t \<and> task_sub_division t = sub_division_key g) records)))
   \<and> (matches (no_filter\<lparr>by_sub_division_text := Some s\<rparr>) t \<longleftrightarrow>
        (\<exists>pre suf. map lower (task_sub_division t) = pre @ map lower s @ suf))
   \<and> matches north_filter north_zone_task
   \<and> map sub_division_key (by_sub_division (summarize [north_zone_task] north_filter)) =
       [''North Zone'']"
proof -
  have 1: "grand_totals (summarize records f) c =
     sum_list (map (\<lambda>t. amount t c) (filter (matches f) records))"
    by (simp add: summarize_def Let_def sum_rows_def)
  have keys: "map sub_division_key (by_sub_division (summarize records f)) =
      remdups (map task_sub_division (filter (matches f) records))"
    by (simp add: summarize_def Let_def comp_def)
  have 2: "sub_division_key ` set (by_sub_division (summarize records f)) =
       task_sub_division ` {t \<in> set records. matches f t}"
  proof -
    have "sub_division_key ` set (by_sub_division (summarize records f)) =
        set (map sub_division_key (by_sub_division (summarize records f)))" by simp
    also have "\<dots> = task_sub_division ` {t \<in> set records. matches f t}"
      unfolding keys by auto
    finally show ?thesis .
  qed
  have 3: "distinct (map sub_division_key (by_sub_division (summarize records f)))"
    unfolding keys by simp
  have 4: "\<forall>g \<in> set (by_sub_division (summarize records f)).
        group_totals g c =
          sum_list (map (\<lambda>t. amount t c)
            (filter (\<lambda>t. matches f t \<and> task_sub_division t = sub_division_key g) records))"
    by (auto simp add: summarize_def Let_def sum_rows_def)
  have 5: "matches (no_filter\<lparr>by_sub_division_text := Some s\<rparr>) t \<longleftrightarrow>
        (\<exists>pre suf. map lower (task_sub_division t) = pre @ map lower s @ suf)"
    by (simp add: matches_def no_filter_def contains_iff)
  from 1 2 3 4 5 matches_north summarize_north show ?thesis by blast
qed

theorem summarize_totals_witness:
  "by_sub_division (summarize [north_zone_task] north_filter) \<noteq> []
   \<and> group_totals (hd (by_sub_division (summarize [north_zone_task] north_filter)))
       c_number_of_works = 10"
proof -
  let ?L = "by_sub_division (summarize [north_zone_task] north_filter)"
  note t = summarize_totals [of "[north_zone_task]" north_filter c_number_of_works]
  have keys: "map sub_division_key ?L = [''North Zone'']" using t by blast
  then have ne: "?L \<noteq> []" by auto
  then have mem: "hd ?L \<in> set ?L" by simp
  have key: "sub_division_key (hd ?L) = ''North Zone''"
    using keys ne by (cases ?L) simp_all
  have m: "matches north_filter north_zone_task" using t by blast
  have "\<forall>g \<in> set ?L. group_totals g c_number_of_works =
          sum_list (map (\<lambda>t. amount t c_number_of_works)
            (filter (\<lambda>t. matches north_filter t \<and> task_sub_division t = sub_division_key g)
               [north_zone_task]))"
    using t by blast
  then have "group_totals (hd ?L) c_number_of_works =
          sum_list (map (\<lambda>t. amount t c_number_of_works)
            (filter (\<lambda>t. matches north_filter t \<and> task_sub_division t = sub_division_key (hd ?L))
               [north_zone_task]))"
    using mem by blast
  then have "group_totals (hd ?L) c_number_of_works = 10"
    by (simp add: key m) (simp add: north_zone_task_def)
  with ne show ?thesis by simp
qed

section \<open>Pagination\<close>

lemma clamp_page_size_bounds: "1 \<le> clamp_page_size n \<and> clamp_page_size n \<le> 500"
  by (simp add: clamp_page_size_def)

lemma pages_cover:
  fixes n ps :: nat
  assumes "1 \<le> ps"
  defines "tp \<equiv> max 1 (nat \<lceil>(of_nat n :: rat) / of_nat ps\<rceil>)"
  shows "n \<le> tp * ps" and "0 < n \<Longrightarrow> (tp - 1) * ps < n" and "n = 0 \<Longrightarrow> tp = 1"
    and "1 \<le> tp"
proof -
  define x :: rat where "x = of_nat n / of_nat ps"
  define c where "c = \<lceil>x\<rceil>"
  have ps: "(0::rat) < of_nat ps" using assms(1) by simp
  have x0: "0 \<le> x" by (simp add: x_def)
  then have c0: "0 \<le> c" by (simp add: c_def)
  have up: "x \<le> of_int c" and low: "of_int c - 1 < x"
    using ceiling_correct [of x] by (simp_all add: c_def)
  have tp: "tp = max 1 (nat c)" by (simp add: tp_def c_def x_def)
  show "1 \<le> tp" by (simp add: tp)
  have "(of_nat n :: rat) \<le> of_int c * of_nat ps"
    using up ps by (simp add: x_def pos_divide_le_eq)
  also have "of_int c * (of_nat ps :: rat) = of_nat (nat c * ps)"
    using c0 by simp
  finally have "n \<le> nat c * ps" by (simp only: of_nat_le_iff)
  moreover have "nat c * ps \<le> tp * ps" by (simp add: tp)
  ultimately show "n \<le> tp * ps" by linarith
  show "tp = 1" if "n = 0"
    using that by (simp add: tp c_def x_def)
  show "(tp - 1) * ps < n" if n: "0 < n"
  proof -
    have "0 < x" using n ps by (simp add: x_def)
    then have "0 < c" using up by (simp add: c_def)
    then have tpc: "tp = nat c" by (simp add: tp)
    have "(of_int c - 1) * (of_nat ps :: rat) < of_nat n"
      using low ps by (simp add: x_def pos_less_divide_eq)
    moreover have "(of_int c - 1) * (of_nat ps :: rat) = of_nat ((nat c - 1) * ps)"
    proof -
      have "nat c - 1 = nat (c - 1)" by simp
      moreover have "(of_nat (nat (c - 1)) :: rat) = of_int (c - 1)"
        using \<open>0 < c\<close> by simp
      ultimately show ?thesis by simp
    qed
    ultimately have "(of_nat ((nat c - 1) * ps) :: rat) < of_nat n" by simp
    then have "(nat c - 1) * ps < n" by (simp only: of_nat_less_iff)
    then show ?thesis by (simp add: tpc)
  qed
qed

text \<open>
  C6. For every record collection, filter, page and requested page size, \<open>list\<close> works
  with the page size clamped into 1..500 and returns \<open>total_pages = ceil(total_items /
  page_size)\<close>, at least 1 even when there is no item: the least number of pages that
  holds all the items. A request for a page beyond \<open>total_pages\<close> returns an empty
  \<open>items\<close> array, not an error. In particular a filter matching no record, with page
  size 500, returns no item, \<open>total_items = 0\<close> and \<open>total_pages = 1\<close>.
\<close>

theorem list_pagination:
  fixes sort_key_of :: "task \<Rightarrow> 'k::linorder"
  assumes "r = list_tasks records f sort_key_of descending pg requested_size"
  shows "page_size r = max 1 (min 500 requested_size)
     \<and> 1 \<le> page_size r \<and> page_size r \<le> 500
     \<and> total_items r = length (filter (matches f) records)
     \<and> int (total_pages r) =
         max 1 \<lceil>(of_nat (total_items r) :: rat) / of_nat (page_size r)\<rceil>
     \<and> 1 \<le> total_pages r
     \<and> (total_items r = 0 \<longrightarrow> total_pages r = 1)
     \<and> total_items r \<le> total_pages r * page_size r
     \<and> (0 < total_items r \<longrightarrow> (total_pages r - 1) * page_size r < total_items r)
     \<and> (total_pages r < pg \<longrightarrow> items r = [])
     \<and> set (items r) \<subseteq> {t \<in> set records. matches f t}
     \<and> length (items r) \<le> page_size r
     \<and> (filter (matches f) records = [] \<and> requested_size = 500 \<longrightarrow>
          r = \<lparr>items = [], page = pg, page_size = 500, total_items = 0, total_pages = 1\<rparr>)"
proof -
  define ps where "ps = clamp_page_size requested_size"
  define rows where "rows = (if descending
      then rev (sort_key sort_key_of (rev (filter (matches f) records)))
      else sort_key sort_key_of (filter (matches f) records))"
  define n where "n = length (filter (matches f) records)"
  define tp where "tp = max 1 (nat \<lceil>(of_nat n :: rat) / of_nat ps\<rceil>)"
  have len: "length rows = n" by (simp add: rows_def n_def)
  have setr: "set rows = {t \<in> set records. matches f t}" by (auto simp add: rows_def)
  have r: "r = \<lparr>items = take ps (drop ((pg - 1) * ps) rows), page = pg, page_size = ps,
                 total_items = n, total_pages = tp\<rparr>"
    unfolding assms list_tasks_def Let_def ps_def rows_def n_def tp_def by simp
  have ps1: "1 \<le> ps" and ps500: "ps \<le> 500"
    using clamp_page_size_bounds [of requested_size] by (simp_all add: ps_def)
  note pc = pages_cover [OF ps1, of n, folded tp_def]
  have tpi: "int tp = max 1 \<lceil>(of_nat n :: rat) / of_nat ps\<rceil>"
  proof -
    have "(0::rat) \<le> of_nat n / of_nat ps" by simp
    then have "\<lceil>0::rat\<rceil> \<le> \<lceil>(of_nat n :: rat) / of_nat ps\<rceil>" by (rule ceiling_mono)
    then have "0 \<le> \<lceil>(of_nat n :: rat) / of_nat ps\<rceil>" by simp
    then show ?thesis unfolding tp_def by linarith
  qed
  have beyond: "take ps (drop ((pg - 1) * ps) rows) = []" if "tp < pg"
  proof -
    have "tp \<le> pg - 1" using that by simp
    then have "tp * ps \<le> (pg - 1) * ps" by simp
    with pc(1) have "length rows \<le> (pg - 1) * ps" using len by linarith
    then show ?thesis by simp
  qed
  have sub: "set (take ps (drop ((pg - 1) * ps) rows)) \<subseteq> {t \<in> set records. matches f t}"
    using set_take_subset set_drop_subset setr by fast
  have empty: "r = \<lparr>items = [], page = pg, page_size = 500, total_items = 0, total_pages = 1\<rparr>"
    if "filter (matches f) records = []" "requested_size = 500"
  proof -
    have "rows = []" using that(1) by (simp add: rows_def)
    moreover have "n = 0" using that(1) by (simp add: n_def)
    moreover have "ps = 500" using that(2) by (simp add: ps_def clamp_page_size_def)
    moreover have "tp = 1" using pc(3) \<open>n = 0\<close> by simp
    ultimately show ?thesis by (simp add: r)
  qed
  show ?thesis
    using ps1 ps500 pc tpi beyond sub empty
    by (simp add: r) (simp add: ps_def clamp_page_size_def n_def)
qed

theorem list_pagination_witness:
  "filter (matches no_match_filter) [north_zone_task] = []
   \<and> list_tasks [north_zone_task] no_match_filter sno False 1 500 =
       \<lparr>items = [], page = 1, page_size = 500, total_items = 0, total_pages = 1\<rparr>
   \<and> total_items (list_tasks [north_zone_task] no_filter sno False 2 50) = 1
   \<and> total_pages (list_tasks [north_zone_task] no_filter sno False 2 50) = 1
   \<and> items (list_tasks [north_zone_task] no_filter sno False 2 50) = []"
proof -
  have m: "\<not> matches no_match_filter north_zone_task" "matches no_filter north_zone_task"
    by (simp_all add: matches_def no_match_filter_def no_filter_def north_zone_task_def
        lower_def)
  note a = list_pagination [of "list_tasks [north_zone_task] no_match_filter sno False 1 500"
      "[north_zone_task]" no_match_filter sno False 1 500]
  note b = list_pagination [of "list_tasks [north_zone_task] no_filter sno False 2 50"
      "[north_zone_task]" no_filter sno False 2 50]
  have ti: "total_items (list_tasks [north_zone_task] no_filter sno False 2 50) = 1"
    using b by (simp add: m)
  have ps: "page_size (list_tasks [north_zone_task] no_filter sno False 2 50) = 50"
    using b by (simp add: m)
  have tp: "total_pages (list_tasks [north_zone_task] no_filter sno False 2 50) = 1"
  proof -
    have "(total_pages (list_tasks [north_zone_task] no_filter sno False 2 50) - 1) * 50 < 1"
      using b ti ps by (simp add: m)
    moreover have "1 \<le> total_pages (list_tasks [north_zone_task] no_filter sno False 2 50)"
      using b by (simp add: m)
    ultimately show ?thesis by simp
  qed
  have it: "items (list_tasks [north_zone_task] no_filter sno False 2 50) = []"
    using b tp by (simp add: m)
  show ?thesis using a ti tp it by (simp add: m)
qed

section \<open>Date bounds\<close>

text \<open>
  C7. For every record and every filter with date bounds, the bounds \<open>date_from\<close> and
  \<open>date_to\<close> are inclusive on \<open>created_at\<close>. A bare date as lower bound stands for the
  start of that day and as upper bound for the end of that day: with a time of day that
  is valid, the record passes a bare lower bound exactly when its day is not before the
  bound, and a bare upper bound exactly when its day is not after it. So the filter
  \<open>date_to = 2025-06-30\<close> includes every record created at any time on 2025-06-30.
\<close>

theorem date_bounds_inclusive:
  "(matches (f\<lparr>date_from := Some (DateTime lo), date_to := Some (DateTime hi)\<rparr>) t \<longleftrightarrow>
      matches (f\<lparr>date_from := None, date_to := None\<rparr>) t
      \<and> lo \<le> created_at t \<and> created_at t \<le> hi)
   \<and> matches (no_filter\<lparr>date_from := Some (DateTime (created_at t)),
                          date_to := Some (DateTime (created_at t))\<rparr>) t
   \<and> (valid_time (snd (created_at t)) \<longrightarrow>
        (matches (f\<lparr>date_from := Some (BareDate d)\<rparr>) t \<longleftrightarrow>
           matches (f\<lparr>date_from := None\<rparr>) t \<and> d \<le> fst (created_at t)))
   \<and> (valid_time (snd (created_at t)) \<longrightarrow>
        (matches (f\<lparr>date_to := Some (BareDate d)\<rparr>) t \<longleftrightarrow>
           matches (f\<lparr>date_to := None\<rparr>) t \<and> fst (created_at t) \<le> d))
   \<and> (valid_time (snd (created_at t)) \<and> fst (created_at t) = (2025, 6, 30) \<longrightarrow>
        matches end_of_june t)"
proof -
  obtain dt h m s us where c: "created_at t = (dt, (h, m, s, us))"
    by (metis prod.exhaust)
  have lo: "start_of_day d \<le> created_at t \<longleftrightarrow> d \<le> fst (created_at t)" for d
    by (auto simp add: c start_of_day_def less_eq_prod_def less_prod_def)
  have hi: "created_at t \<le> end_of_day d \<longleftrightarrow> fst (created_at t) \<le> d"
    if "valid_time (snd (created_at t))" for d
    using that by (auto simp add: c end_of_day_def valid_time_def less_eq_prod_def less_prod_def)
  show ?thesis
    using hi by (auto simp add: matches_def lo end_of_june_def no_filter_def)
qed

theorem date_bounds_inclusive_witness:
  "valid_time (snd (created_at north_zone_task))
   \<and> fst (created_at north_zone_task) = (2025, 6, 30)
   \<and> matches end_of_june north_zone_task
   \<and> matches (no_filter\<lparr>date_from := Some (BareDate (2025, 6, 30))\<rparr>) north_zone_task
   \<and> \<not> matches (no_filter\<lparr>date_to := Some (BareDate (2025, 6, 29))\<rparr>) north_zone_task"
proof -
  have v: "valid_time (snd (created_at north_zone_task))"
    "fst (created_at north_zone_task) = (2025, 6, 30)"
    by (simp_all add: north_zone_task_def valid_time_def)
  have n: "matches (no_filter\<lparr>date_from := None\<rparr>) north_zone_task"
    "matches (no_filter\<lparr>date_to := None\<rparr>) north_zone_task"
    by (simp_all add: matches_def no_filter_def)
  show ?thesis
    using date_bounds_inclusive [where f = no_filter and t = north_zone_task
        and d = "(2025, 6, 30)"]
      date_bounds_inclusive [where f = no_filter and t = north_zone_task
        and d = "(2025, 6, 29)"]
    by (simp add: v n less_eq_prod_def)
qed

end
